theory Spec2Isabelle
  imports Main
begin

section \<open>Strings as the handlers use them\<close>

text \<open>
  Python strings are modelled as \<^typ>\<open>string\<close>; a character stands for a code point
  below 256. The functions below are the \<^verbatim>\<open>str\<close> methods the handlers call, with
  the behaviour CPython gives them on such code points.
\<close>

definition is_space :: "char \<Rightarrow> bool" where
  \<comment> \<open>\<^verbatim>\<open>str.isspace\<close> on one character: TAB..CR, FS..US, space, NEL, NBSP.\<close>
  "is_space c =
     (let n = (of_char c :: nat)
      in (9 \<le> n \<and> n \<le> 13) \<or> (28 \<le> n \<and> n \<le> 32) \<or> n = 133 \<or> n = 160)"

definition lower_char :: "char \<Rightarrow> char" where
  \<comment> \<open>\<^verbatim>\<open>str.lower\<close> on one character: A..Z and the accented capitals (not the times sign).\<close>
  "lower_char c =
     (let n = (of_char c :: nat)
      in if (65 \<le> n \<and> n \<le> 90) \<or> (192 \<le> n \<and> n \<le> 222 \<and> n \<noteq> 215)
         then char_of (n + 32) else c)"

definition lower :: "string \<Rightarrow> string" where
  "lower s = map lower_char s"

definition startswith :: "string \<Rightarrow> string \<Rightarrow> bool" where
  "startswith s p = (take (length p) s = p)"

definition strip :: "string \<Rightarrow> string" where
  \<comment> \<open>\<^verbatim>\<open>str.strip()\<close>: white space removed at both ends.\<close>
  "strip s = rev (dropWhile is_space (rev (dropWhile is_space s)))"

fun split_ws_from :: "string \<Rightarrow> string \<Rightarrow> string list" where
  \<comment> \<open>the first argument is the token read so far\<close>
  "split_ws_from cur [] = (if cur = [] then [] else [cur])"
| "split_ws_from cur (c # cs) =
     (if is_space c
      then (if cur = [] then split_ws_from [] cs else cur # split_ws_from [] cs)
      else split_ws_from (cur @ [c]) cs)"

definition split_ws :: "string \<Rightarrow> string list" where
  \<comment> \<open>\<^verbatim>\<open>str.split()\<close> without argument: the maximal runs of non-space characters.\<close>
  "split_ws s = split_ws_from [] s"

fun replace_from :: "nat \<Rightarrow> string \<Rightarrow> string \<Rightarrow> string \<Rightarrow> string" where
  \<comment> \<open>the first argument counts the characters of a match still to be skipped\<close>
  "replace_from k old new [] = []"
| "replace_from k old new (c # cs) =
     (if 0 < k then replace_from (k - 1) old new cs
      else if startswith (c # cs) old then new @ replace_from (length old - 1) old new cs
      else c # replace_from 0 old new cs)"

definition replace :: "string \<Rightarrow> string \<Rightarrow> string \<Rightarrow> string" where
  \<comment> \<open>\<^verbatim>\<open>s.replace(old, new)\<close> for a non-empty \<open>old\<close>: the matches found left to right,
      none overlapping.\<close>
  "replace s old new = replace_from 0 old new s"

fun split_from :: "nat \<Rightarrow> string \<Rightarrow> string \<Rightarrow> string \<Rightarrow> string list" where
  "split_from k sep cur [] = [cur]"
| "split_from k sep cur (c # cs) =
     (if 0 < k then split_from (k - 1) sep cur cs
      else if startswith (c # cs) sep then cur # split_from (length sep - 1) sep [] cs
      else split_from 0 sep (cur @ [c]) cs)"

definition split_on :: "string \<Rightarrow> string \<Rightarrow> string list" where
  \<comment> \<open>\<^verbatim>\<open>s.split(sep)\<close> for a non-empty \<open>sep\<close>.\<close>
  "split_on s sep = split_from 0 sep [] s"

definition basename :: "string \<Rightarrow> string" where
  \<comment> \<open>\<^verbatim>\<open>os.path.basename\<close> (POSIX): what follows the last slash.\<close>
  "basename p = rev (takeWhile (\<lambda>c. c \<noteq> CHR ''/'') (rev p))"

definition splitext_root :: "string \<Rightarrow> string" where
  \<comment> \<open>\<^verbatim>\<open>os.path.splitext(p)[0]\<close> (POSIX): the last dot starts the extension when it lies
      in the last path component and some character other than a dot precedes it there.\<close>
  "splitext_root p =
     (let ext = takeWhile (\<lambda>c. c \<noteq> CHR ''.'') (rev p);
          root = rev (drop (Suc (length ext)) (rev p));
          stem = takeWhile (\<lambda>c. c \<noteq> CHR ''/'') (rev root)
      in if CHR ''.'' \<in> set p \<and> CHR ''/'' \<notin> set ext \<and> filter (\<lambda>c. c \<noteq> CHR ''.'') stem \<noteq> []
         then root else p)"

section \<open>The session state (pydantic\_models.py)\<close>

datatype message = SystemMessage string | HumanMessage string | AIMessage string

fun content :: "message \<Rightarrow> string" where
  "content (SystemMessage c) = c"
| "content (HumanMessage c) = c"
| "content (AIMessage c) = c"

text \<open>
  The rows a query returns are opaque to the handlers (they are stored, and printed once),
  so their type is a parameter \<open>'r\<close>.
\<close>

record 'r SqlEvent =
  user_question :: "string option"
  sql_text :: "string option"
  sql_result :: "'r option"
  llm_response :: "string option"
  error :: "string option"
  retry_count :: int

record DataLoadEvent =
  file_path :: "string option"
  table_columns_description :: "string option"

record 'r ChatState =
  conversation_history :: "message list"
  sql_event :: "'r SqlEvent"
  data_load_event :: DataLoadEvent
  table_schemas :: string
  next_step :: string

definition new_SqlEvent :: "string \<Rightarrow> 'r SqlEvent" where
  \<comment> \<open>\<^verbatim>\<open>SqlEvent(user_question=q)\<close>: every other field takes its default.\<close>
  "new_SqlEvent q =
     \<lparr>user_question = Some q, sql_text = None, sql_result = None, llm_response = None,
      error = None, retry_count = 0\<rparr>"

definition update_conversation_history :: "'r ChatState \<Rightarrow> message \<Rightarrow> 'r ChatState" where
  "update_conversation_history state new_message =
     state\<lparr>conversation_history := conversation_history state @ [new_message]\<rparr>"

section \<open>The stage handlers (manage\_multi\_agent\_states.py)\<close>

text \<open>
  What a handler obtains from outside (the line typed by the user, the reply of the language
  model, the outcome of a database call, the text of a file) is an argument of its model: the
  collaborators are black boxes, so a theorem about a handler holds for whatever they return.
  For the same reason the prompt sent to the model is not part of the model: the reply is
  arbitrary. An exception that leaves a handler is the \<open>Inl\<close> of its result.
\<close>

datatype py_exn =
  IndexError | TypeError | ValidationError | DbError string | OSError string | RoutingError string

definition load_first_msg :: string where
  "load_first_msg =
     ''Please load your data first using the command /load <file_path>  <table_columns_description>.''"

definition handle_user_input :: "string \<Rightarrow> 'r ChatState \<Rightarrow> py_exn + 'r ChatState" where
  \<comment> \<open>the handler first logs \<^verbatim>\<open>conversation_history[-1]\<close>, which raises on an empty history\<close>
  "handle_user_input user_input state =
     (if conversation_history state = [] then Inl IndexError
      else if startswith (lower user_input) ''/q'' then Inr (state\<lparr>next_step := ''END''\<rparr>)
      else if startswith (lower user_input) ''/load'' then
        (case split_ws user_input of
           [_, fp, tcd] \<Rightarrow>
             Inr (state\<lparr>data_load_event :=
                           \<lparr>file_path = Some fp, table_columns_description = Some tcd\<rparr>,
                        next_step := ''load_data''\<rparr>)
         | _ \<Rightarrow> Inr (state\<lparr>next_step := ''handle_user_input''\<rparr>))
      else if table_schemas state = [] then
        Inr ((update_conversation_history state (SystemMessage load_first_msg))
               \<lparr>next_step := ''handle_user_input''\<rparr>)
      else
        Inr ((update_conversation_history state (HumanMessage user_input))
               \<lparr>sql_event := new_SqlEvent user_input, next_step := ''build_query''\<rparr>))"

definition table_name_of :: "string \<Rightarrow> string" where
  "table_name_of fp = splitext_root (basename fp)"

definition table_info :: "string \<Rightarrow> string \<Rightarrow> string" where
  \<comment> \<open>the block \<^verbatim>\<open>f"Table: {table_name}\n{meta}\n"\<close>\<close>
  "table_info table_name meta = ''Table: '' @ table_name @ [CHR 0x0A] @ meta @ [CHR 0x0A]"

definition loaded_msg :: "string \<Rightarrow> string \<Rightarrow> string" where
  "loaded_msg table_name info =
     ''Table '' @ [CHR 0x27] @ table_name @ [CHR 0x27] @ '' loaded with metadata:''
       @ [CHR 0x0A] @ info"

definition load_data ::
  "string option \<Rightarrow> string + string \<Rightarrow> 'r ChatState \<Rightarrow> py_exn + 'r ChatState" where
  \<comment> \<open>\<open>created\<close>: \<open>Some e\<close> when CREATE OR REPLACE TABLE raises \<open>e\<close>;
      \<open>file_read\<close>: the text of the description file, or \<open>Inl e\<close> when opening or reading
      it raises \<open>e\<close>\<close>
  "load_data created file_read state =
     (case file_path (data_load_event state) of
        None \<Rightarrow> Inl TypeError
      | Some fp \<Rightarrow>
         (case created of
            Some e \<Rightarrow> Inl (DbError e)
          | None \<Rightarrow>
             (case table_columns_description (data_load_event state) of
                None \<Rightarrow> Inl TypeError
              | Some _ \<Rightarrow>
                 (case file_read of
                    Inl e \<Rightarrow> Inl (OSError e)
                  | Inr meta \<Rightarrow>
                     (let table_name = table_name_of fp;
                          info = table_info table_name meta;
                          state1 = state\<lparr>table_schemas := table_schemas state @ info\<rparr>;
                          state2 = update_conversation_history state1
                                     (SystemMessage (loaded_msg table_name info))
                      in Inr (state2\<lparr>next_step := ''handle_user_input''\<rparr>))))))"

definition clarification_marker :: string where
  "clarification_marker = ''[CLARIFICATION]''"

definition fence :: string where
  \<comment> \<open>three backquotes\<close>
  "fence = [CHR 0x60, CHR 0x60, CHR 0x60]"

definition build_query :: "string \<Rightarrow> 'r ChatState \<Rightarrow> py_exn + 'r ChatState" where
  \<comment> \<open>\<open>llm_content\<close> is \<^verbatim>\<open>llm_response.content\<close>\<close>
  "build_query llm_content state =
     (if startswith llm_content clarification_marker then
        (case split_on llm_content clarification_marker of
           _ # part # _ \<Rightarrow>
             (let clarification_text = strip part;
                  clarification_msg =
                    ''Your question is ambiguous. Please provide additional details: ''
                      @ clarification_text
              in Inr ((update_conversation_history state (AIMessage clarification_msg))
                        \<lparr>next_step := ''handle_user_input''\<rparr>))
         | _ \<Rightarrow> Inl IndexError)
      else
        (let query_text = strip (replace (replace llm_content (fence @ ''sql'') []) fence []);
             state1 = update_conversation_history state (AIMessage query_text)
         in Inr (state1\<lparr>sql_event := (sql_event state1)\<lparr>sql_text := Some query_text\<rparr>,
                        next_step := ''execute_query''\<rparr>)))"

definition give_up_msg :: string where
  \<comment> \<open>the second fragment of the literal is not an f-string: the braces stay as written\<close>
  "give_up_msg =
     ''Unfortunately, I was unable to execute your requests after {MAX_RETRY_SQL_GENERATION} attempts.''"

definition error_msg :: "string \<Rightarrow> string" where
  "error_msg e = ''The generated SQL query raised this error:'' @ [CHR 0x0A] @ e @ [CHR 0x0A]"

definition execute_query :: "int \<Rightarrow> string + 'r \<Rightarrow> 'r ChatState \<Rightarrow> 'r ChatState" where
  \<comment> \<open>\<open>max_retry\<close> is the constant \<^verbatim>\<open>MAX_RETRY_SQL_GENERATION\<close>; \<open>executed\<close> is the outcome
      of \<^verbatim>\<open>db_conn.execute(...).fetchall()\<close>: the rows, or \<open>Inl\<close> of the text of the
      exception, which the handler catches\<close>
  "execute_query max_retry executed state =
     (case executed of
        Inr result \<Rightarrow>
          state\<lparr>sql_event := (sql_event state)\<lparr>sql_result := Some result, error := None\<rparr>,
                next_step := ''post_execution''\<rparr>
      | Inl e \<Rightarrow>
          (let ev = (sql_event state)\<lparr>sql_result := None, error := Some e,
                                      retry_count := retry_count (sql_event state) + 1\<rparr>;
               state1 = state\<lparr>sql_event := ev\<rparr>
           in if retry_count ev > max_retry
              then (update_conversation_history state1 (AIMessage give_up_msg))
                     \<lparr>next_step := ''handle_user_input''\<rparr>
              else (update_conversation_history state1 (AIMessage (error_msg e)))
                     \<lparr>next_step := ''build_query''\<rparr>))"

definition str_result :: "('r \<Rightarrow> string) \<Rightarrow> 'r option \<Rightarrow> string" where
  \<comment> \<open>\<^verbatim>\<open>str(state.sql_event.sql_result)\<close>; \<open>show_rows\<close> prints a list of rows\<close>
  "str_result show_rows r = (case r of None \<Rightarrow> ''None'' | Some rows \<Rightarrow> show_rows rows)"

definition post_execution ::
  "('r \<Rightarrow> string) \<Rightarrow> string \<Rightarrow> 'r ChatState \<Rightarrow> py_exn + 'r ChatState" where
  \<comment> \<open>\<open>llm_content\<close> is the summary the model returns; a question that is \<open>None\<close> is
      refused when the prompt's \<^verbatim>\<open>HumanMessage\<close> is built\<close>
  "post_execution show_rows llm_content state =
     (let sql_results =
            AIMessage (''SQL results are: '' @ str_result show_rows (sql_result (sql_event state)));
          state1 = update_conversation_history state sql_results
      in case user_question (sql_event state1) of
           None \<Rightarrow> Inl ValidationError
         | Some _ \<Rightarrow>
            (let state2 = update_conversation_history state1 (AIMessage llm_content)
             in Inr (state2\<lparr>sql_event := (sql_event state2)\<lparr>llm_response := Some llm_content\<rparr>,
                            next_step := ''handle_user_input''\<rparr>)))"

definition route_to_next_step :: "'r ChatState \<Rightarrow> string" where
  "route_to_next_step state = next_step state"

section \<open>The graph of stages (build\_state\_graph.py)\<close>

definition END :: string where
  \<comment> \<open>the terminal node of the graph library\<close>
  "END = ''__end__''"

definition conditional_edges :: "string \<Rightarrow> (string \<times> string) list option" where
  \<comment> \<open>the path map given to \<^verbatim>\<open>add_conditional_edges\<close> for a node, if it has one\<close>
  "conditional_edges node =
     (if node = ''handle_user_input'' then
        Some [(''handle_user_input'', ''handle_user_input''), (''load_data'', ''load_data''),
              (''build_query'', ''build_query''), (''END'', END)]
      else if node = ''build_query'' then
        Some [(''handle_user_input'', ''handle_user_input''), (''execute_query'', ''execute_query'')]
      else if node = ''execute_query'' then
        Some [(''build_query'', ''build_query''), (''post_execution'', ''post_execution''),
              (''handle_user_input'', ''handle_user_input'')]
      else None)"

definition plain_edge :: "string \<Rightarrow> string option" where
  \<comment> \<open>the target given to \<^verbatim>\<open>add_edge\<close> for a node, if it has one\<close>
  "plain_edge node =
     (if node = ''load_data'' then Some ''handle_user_input''
      else if node = ''post_execution'' then Some ''handle_user_input''
      else None)"

definition next_node :: "string \<Rightarrow> 'r ChatState \<Rightarrow> py_exn + string" where
  \<comment> \<open>the node that follows \<open>node\<close>: the router's value looked up in the path map (a value
      the map does not have is an error of the library), or the plain edge\<close>
  "next_node node state =
     (case conditional_edges node of
        Some path_map \<Rightarrow>
          (case map_of path_map (route_to_next_step state) of
             Some target \<Rightarrow> Inr target
           | None \<Rightarrow> Inl (RoutingError (route_to_next_step state)))
      | None \<Rightarrow>
          (case plain_edge node of
             Some target \<Rightarrow> Inr target
           | None \<Rightarrow> Inl (RoutingError node)))"

text \<open>
  One \<open>world\<close> holds what the collaborators answer during one node's run: the line typed,
  the outcome of creating the table, the outcome of reading the description file, the
  model's reply and the outcome of executing the query. Each node reads the fields it uses.
\<close>

record 'r world =
  w_typed :: string
  w_created :: "string option"
  w_file_read :: "string + string"
  w_llm :: string
  w_executed :: "string + 'r"

definition run_node ::
  "int \<Rightarrow> ('r \<Rightarrow> string) \<Rightarrow> string \<Rightarrow> 'r world \<Rightarrow> 'r ChatState \<Rightarrow> py_exn + 'r ChatState" where
  \<comment> \<open>the handler registered under a node's name by \<^verbatim>\<open>add_node\<close>\<close>
  "run_node max_retry show_rows node w state =
     (if node = ''handle_user_input'' then handle_user_input (w_typed w) state
      else if node = ''load_data'' then load_data (w_created w) (w_file_read w) state
      else if node = ''build_query'' then build_query (w_llm w) state
      else if node = ''execute_query'' then Inr (execute_query max_retry (w_executed w) state)
      else if node = ''post_execution'' then post_execution show_rows (w_llm w) state
      else Inl (RoutingError node))"

fun run_graph ::
  "int \<Rightarrow> ('r \<Rightarrow> string) \<Rightarrow> string \<Rightarrow> 'r ChatState \<Rightarrow> 'r world list
     \<Rightarrow> py_exn + (string list \<times> string \<times> 'r ChatState)" where
  \<comment> \<open>runs the graph from \<open>node\<close>, one world per node run, until the terminal node is reached
      or the worlds are used up (the list is the step budget); the result is the list of
      the nodes run, the node reached and the state\<close>
  "run_graph max_retry show_rows node state [] = Inr ([], node, state)"
| "run_graph max_retry show_rows node state (w # ws) =
     (if node = END then Inr ([], node, state)
      else
        (case run_node max_retry show_rows node w state of
           Inl e \<Rightarrow> Inl e
         | Inr state' \<Rightarrow>
            (case next_node node state' of
               Inl e \<Rightarrow> Inl e
             | Inr node' \<Rightarrow>
                (case run_graph max_retry show_rows node' state' ws of
                   Inl e \<Rightarrow> Inl e
                 | Inr (trace, last_node, final) \<Rightarrow> Inr (node # trace, last_node, final)))))"

definition chat_state :: "string \<Rightarrow> 'r ChatState" where
  \<comment> \<open>the state the session starts from: the welcome text as the only message, every other
      field at its default\<close>
  "chat_state welcome =
     \<lparr>conversation_history = [SystemMessage welcome],
      sql_event = \<lparr>user_question = None, sql_text = None, sql_result = None,
                   llm_response = None, error = None, retry_count = 0\<rparr>,
      data_load_event = \<lparr>file_path = None, table_columns_description = None\<rparr>,
      table_schemas = [],
      next_step = ''handle_user_input''\<rparr>"

section \<open>Notions the properties are stated with\<close>


definition stage_names :: "string set" where
  \<comment> \<open>the values of \<open>next_step\<close> that some path map of the graph knows\<close>
  "stage_names =
     {''handle_user_input'', ''load_data'', ''build_query'', ''execute_query'',
      ''post_execution'', ''END''}"

definition is_quit :: "string \<Rightarrow> bool" where
  "is_quit user_input = startswith (lower user_input) ''/q''"

definition is_load :: "string \<Rightarrow> bool" where
  "is_load user_input = startswith (lower user_input) ''/load''"


text \<open>
  A load is given by the path of the data file, the path of the description file and the
  text of the description file. A session of successful loads types one load command per
  load; the database and the file system raise nothing.
\<close>

definition load_world :: "string \<times> string \<times> string \<Rightarrow> 'r world" where
  "load_world l =
     (case l of (fp, tcd, meta) \<Rightarrow>
        \<lparr>w_typed = ''/load '' @ fp @ '' '' @ tcd, w_created = None, w_file_read = Inr meta,
         w_llm = [], w_executed = Inl []\<rparr>)"



definition graph_nodes :: "string set" where
  \<comment> \<open>the nodes of the graph, the terminal one included\<close>
  "graph_nodes = {''handle_user_input'', ''load_data'', ''build_query'', ''execute_query'',
      ''post_execution'', END}"

definition appended_ok :: "string \<Rightarrow> 'r world \<Rightarrow> message list \<Rightarrow> bool" where
  \<comment> \<open>the messages one run of a node may append: how many, and of which role\<close>
  "appended_ok node w ms =
     (if node = ''handle_user_input'' then
        ms = [] \<or> ms = [SystemMessage load_first_msg] \<or> ms = [HumanMessage (w_typed w)]
      else if node = ''load_data'' then (\<exists>m. ms = [SystemMessage m])
      else if node = ''build_query'' then (\<exists>m. ms = [AIMessage m])
      else if node = ''execute_query'' then
        (if isl (w_executed w) then (\<exists>m. ms = [AIMessage m]) else ms = [])
      else (\<exists>m. ms = [AIMessage m, AIMessage (w_llm w)]))"

subsection \<open>What splitting and stripping mean\<close>

text \<open>
  The string methods are specified here without reference to the way they are computed:
  a separator occurs at a position; the pieces of a text are what lies between the
  occurrences found from left to right, each one the first that follows the previous
  one; a text is stripped by removing the white space at its two ends and nothing else.
\<close>

definition occurs_at :: "string \<Rightarrow> string \<Rightarrow> nat \<Rightarrow> bool" where
  \<comment> \<open>\<open>sep\<close> is found in \<open>s\<close> at position \<open>j\<close>\<close>
  "occurs_at sep s j = startswith (drop j s) sep"

definition first_at :: "string \<Rightarrow> string \<Rightarrow> nat \<Rightarrow> bool" where
  \<comment> \<open>the leftmost occurrence of \<open>sep\<close> in \<open>s\<close> is at position \<open>n\<close>\<close>
  "first_at sep s n = (occurs_at sep s n \<and> (\<forall>j\<in>{0..<n}. \<not> occurs_at sep s j))"

definition absent :: "string \<Rightarrow> string \<Rightarrow> bool" where
  \<comment> \<open>\<open>sep\<close> occurs nowhere in \<open>s\<close>\<close>
  "absent sep s = (\<forall>j\<in>{0..length s}. \<not> occurs_at sep s j)"

fun is_split :: "string \<Rightarrow> string \<Rightarrow> string list \<Rightarrow> bool" where
  \<comment> \<open>\<open>ps\<close> are the pieces of \<open>s\<close> between the occurrences of \<open>sep\<close>: the last piece
      holds no occurrence; every other piece ends where the leftmost occurrence begins,
      and the rest of the pieces are those of the text after that occurrence\<close>
  "is_split sep s [] = False"
| "is_split sep s (u # ps) =
     (if ps = [] then u = s \<and> absent sep s
      else first_at sep s (length u) \<and> take (length u) s = u
           \<and> is_split sep (drop (length u + length sep) s) ps)"


subsection \<open>Concrete sessions\<close>

text \<open>Rows are shown in these sessions as the text Python prints for them.\<close>

definition welcome_state :: "string ChatState" where
  "welcome_state = chat_state ''Welcome to TableAgentGPT!''"

definition sales_schema :: string where
  "sales_schema = table_info ''sales'' ''columns: id, amount, date''"

definition pending_state :: "string ChatState" where
  \<comment> \<open>after the command \<^verbatim>\<open>/load sales.csv sales_meta.txt\<close> was typed\<close>
  "pending_state =
     welcome_state\<lparr>data_load_event :=
                     \<lparr>file_path = Some ''sales.csv'',
                      table_columns_description = Some ''sales_meta.txt''\<rparr>,
                   next_step := ''load_data''\<rparr>"

definition loaded_state :: "string ChatState" where
  \<comment> \<open>after the table \<open>sales\<close> was loaded\<close>
  "loaded_state =
     pending_state\<lparr>conversation_history :=
                     [SystemMessage ''Welcome to TableAgentGPT!'',
                      SystemMessage (loaded_msg ''sales'' sales_schema)],
                   table_schemas := sales_schema,
                   next_step := ''handle_user_input''\<rparr>"

definition asked_state :: "string ChatState" where
  \<comment> \<open>after the table \<open>sales\<close> was loaded and a first question accepted\<close>
  "asked_state =
     \<lparr>conversation_history =
        [SystemMessage ''Welcome to TableAgentGPT!'',
         SystemMessage (loaded_msg ''sales'' sales_schema),
         HumanMessage ''total sales last month''],
      sql_event = new_SqlEvent ''total sales last month'',
      data_load_event =
        \<lparr>file_path = Some ''sales.csv'', table_columns_description = Some ''sales_meta.txt''\<rparr>,
      table_schemas = sales_schema,
      next_step = ''build_query''\<rparr>"

definition answered_state :: "string ChatState" where
  \<comment> \<open>\<open>asked_state\<close> after a query was built and executed with success\<close>
  "answered_state =
     asked_state\<lparr>conversation_history :=
                   conversation_history asked_state @ [AIMessage ''SELECT sum(amount) FROM sales''],
                 sql_event := (new_SqlEvent ''total sales last month'')
                   \<lparr>sql_text := Some ''SELECT sum(amount) FROM sales'',
                    sql_result := Some ''[(42,)]''\<rparr>,
                 next_step := ''post_execution''\<rparr>"

definition failing_world :: "string world" where
  \<comment> \<open>the model answers with a query, the database rejects it\<close>
  "failing_world =
     \<lparr>w_typed = ''total sales last month'', w_created = None, w_file_read = Inr [],
      w_llm = ''SELECT sum(amount) FROM sale'',
      w_executed = Inl ''Catalog Error: Table with name sale does not exist!''\<rparr>"

definition sales_load :: "string \<times> string \<times> string" where
  "sales_load = (''sales.csv'', ''sales_meta.txt'', ''columns: id, amount, date'')"

definition exhausted_state :: "string ChatState" where
  \<comment> \<open>\<open>asked_state\<close> with three failed executions behind it\<close>
  "exhausted_state =
     asked_state\<lparr>sql_event := (new_SqlEvent ''total sales last month'')
                   \<lparr>sql_text := Some ''SELECT sum(amount) FROM sale'',
                    error := Some ''Catalog Error'', retry_count := 3\<rparr>,
                 next_step := ''execute_query''\<rparr>"

definition narrating_world :: "string world" where
  \<comment> \<open>the model answers with a summary\<close>
  "narrating_world =
     \<lparr>w_typed = [], w_created = None, w_file_read = Inr [],
      w_llm = ''The total is 42.'', w_executed = Inr ''[(42,)]''\<rparr>"

definition narrated_state :: "string ChatState" where
  \<comment> \<open>\<open>answered_state\<close> after the narration stage\<close>
  "narrated_state =
     answered_state\<lparr>conversation_history := conversation_history answered_state @
                      [AIMessage ''SQL results are: [(42,)]'', AIMessage ''The total is 42.''],
                    sql_event := (sql_event answered_state)
                      \<lparr>llm_response := Some ''The total is 42.''\<rparr>,
                    next_step := ''handle_user_input''\<rparr>"



section \<open>Facts about the string functions\<close>

lemma split_from_not_Nil: "split_from k sep cur xs \<noteq> []"
  by (induction xs arbitrary: k cur) auto

lemma startswith_append: "startswith s p \<Longrightarrow> s = p @ drop (length p) s"
  by (metis append_take_drop_id startswith_def)

text \<open>The counter of characters to skip only shortens the text that is read.\<close>

lemma split_from_skip: "split_from k sep cur xs = split_from 0 sep cur (drop k xs)"
proof (induction xs arbitrary: k)
  case Nil
  then show ?case by simp
next
  case (Cons c cs)
  show ?case
  proof (cases k)
    case 0
    then show ?thesis by simp
  next
    case (Suc m)
    with Cons [of m] show ?thesis by simp
  qed
qed


lemma split_from_step:
  assumes "sep \<noteq> []"
  shows "split_from 0 sep cur (c # cs) =
     (if startswith (c # cs) sep then cur # split_from 0 sep [] (drop (length sep) (c # cs))
      else split_from 0 sep (cur @ [c]) cs)"
proof -
  from assms obtain n where "length sep = Suc n" by (cases sep) auto
  then show ?thesis using split_from_skip [of n sep "[]" cs] by simp
qed


lemma not_startswith_Nil: "sep \<noteq> [] \<Longrightarrow> \<not> startswith [] sep"
  by (auto simp: startswith_def)

text \<open>
  \<open>split_on\<close> returns the pieces, \<open>replace\<close> with an empty replacement joins them, and
  \<open>strip\<close> strips; the three specifications admit no other result.
\<close>

lemma split_from_is_split:
  assumes "sep \<noteq> []"
    and "\<forall>j\<in>{0..<length cur}. \<not> occurs_at sep (cur @ xs) j"
  shows "is_split sep (cur @ xs) (split_from 0 sep cur xs)"
  using assms(2)
proof (induction "length xs" arbitrary: cur xs rule: less_induct)
  case less
  show ?case
  proof (cases xs)
    case Nil
    have "\<not> occurs_at sep cur (length cur)"
      using assms(1) by (simp add: occurs_at_def not_startswith_Nil)
    with less.prems Nil show ?thesis
      by (auto simp: absent_def le_less)
  next
    case (Cons c cs)
    show ?thesis
    proof (cases "startswith xs sep")
      case True
      let ?rest = "drop (length sep) xs"
      have xs: "xs = sep @ ?rest" using True by (rule startswith_append)
      have lt: "length ?rest < length xs" using assms(1) Cons by simp
      have "is_split sep ([] @ ?rest) (split_from 0 sep [] ?rest)"
        using less.hyps [OF lt, of "[]"] by simp
      moreover have "split_from 0 sep [] ?rest \<noteq> []" by (rule split_from_not_Nil)
      moreover have "first_at sep (cur @ xs) (length cur)"
        using less.prems True by (simp add: first_at_def occurs_at_def)
      ultimately show ?thesis
        using True Cons split_from_step [OF assms(1), of cur c cs] by simp
    next
      case False
      have lt: "length cs < length xs" using Cons by simp
      have "\<forall>j\<in>{0..<length (cur @ [c])}. \<not> occurs_at sep ((cur @ [c]) @ cs) j"
      proof
        fix j assume "j \<in> {0..<length (cur @ [c])}"
        then have "j < length cur \<or> j = length cur" by auto
        then show "\<not> occurs_at sep ((cur @ [c]) @ cs) j"
          using less.prems False Cons by (auto simp: occurs_at_def)
      qed
      from less.hyps [OF lt this] show ?thesis
        using False Cons split_from_step [OF assms(1), of cur c cs] by simp
    qed
  qed
qed

lemma split_on_is_split: "sep \<noteq> [] \<Longrightarrow> is_split sep s (split_on s sep)"
  using split_from_is_split [of sep "[]" s] by (simp add: split_on_def)




lemma occurs_at_bound: "sep \<noteq> [] \<Longrightarrow> occurs_at sep s j \<Longrightarrow> j < length s"
  by (cases "j < length s") (auto simp: occurs_at_def startswith_def)

lemma first_at_unique: "first_at sep s n \<Longrightarrow> first_at sep s m \<Longrightarrow> n = m"
  by (rule ccontr) (auto simp: first_at_def neq_iff)

lemma is_split_unique:
  assumes "sep \<noteq> []"
  shows "is_split sep s ps \<Longrightarrow> is_split sep s qs \<Longrightarrow> ps = qs"
proof (induction ps arbitrary: s qs)
  case Nil
  then show ?case by simp
next
  case (Cons u ps)
  from Cons.prems(2) obtain v qs' where qs: "qs = v # qs'" by (cases qs) auto
  show ?case
  proof (cases "ps = []")
    case True
    with Cons.prems(1) have a: "u = s" "absent sep s" by simp_all
    show ?thesis
    proof (cases "qs' = []")
      case True
      with Cons.prems(2) qs a \<open>ps = []\<close> show ?thesis by simp
    next
      case False
      with Cons.prems(2) qs have "occurs_at sep s (length v)" by (simp add: first_at_def)
      moreover from this have "length v < length s" using assms by (rule occurs_at_bound [rotated])
      ultimately show ?thesis using a(2) by (auto simp: absent_def)
    qed
  next
    case False
    with Cons.prems(1) have a: "first_at sep s (length u)" "take (length u) s = u"
      "is_split sep (drop (length u + length sep) s) ps" by simp_all
    show ?thesis
    proof (cases "qs' = []")
      case True
      with Cons.prems(2) qs have "absent sep s" by simp
      moreover from a(1) have o: "occurs_at sep s (length u)" by (simp add: first_at_def)
      moreover from o have "length u < length s" using assms by (rule occurs_at_bound [rotated])
      ultimately show ?thesis by (auto simp: absent_def)
    next
      case False
      with Cons.prems(2) qs have b: "first_at sep s (length v)" "take (length v) s = v"
        "is_split sep (drop (length v + length sep) s) qs'" by simp_all
      from a(1) b(1) have l: "length u = length v" by (rule first_at_unique)
      with a(2) b(2) have "u = v" by metis
      moreover have "ps = qs'"
      proof (rule Cons.IH [OF a(3)])
        show "is_split sep (drop (length u + length sep) s) qs'"
          using b(3) by (simp only: l)
      qed
      ultimately show ?thesis using qs by simp
    qed
  qed
qed

lemma is_split_iff: "sep \<noteq> [] \<Longrightarrow> is_split sep s ps \<longleftrightarrow> ps = split_on s sep"
  using is_split_unique split_on_is_split by blast







section \<open>Facts about the handlers\<close>


lemma execute_query_Inl:
  "execute_query N (Inl e) s =
     s\<lparr>conversation_history := conversation_history s @
          [AIMessage (if retry_count (sql_event s) + 1 > N then give_up_msg else error_msg e)],
       sql_event := (sql_event s)\<lparr>sql_result := None, error := Some e,
                                    retry_count := retry_count (sql_event s) + 1\<rparr>,
       next_step :=
         (if retry_count (sql_event s) + 1 > N then ''handle_user_input'' else ''build_query'')\<rparr>"
  by (simp add: execute_query_def update_conversation_history_def Let_def)

lemma execute_query_Inr:
  "execute_query N (Inr rows) s =
     s\<lparr>sql_event := (sql_event s)\<lparr>sql_result := Some rows, error := None\<rparr>,
       next_step := ''post_execution''\<rparr>"
  by (simp add: execute_query_def)

lemma build_query_query:
  "\<not> startswith r clarification_marker \<Longrightarrow>
   build_query r s =
     Inr (s\<lparr>conversation_history := conversation_history s @
                [AIMessage (strip (replace (replace r (fence @ ''sql'') []) fence []))],
            sql_event := (sql_event s)\<lparr>sql_text :=
                Some (strip (replace (replace r (fence @ ''sql'') []) fence []))\<rparr>,
            next_step := ''execute_query''\<rparr>)"
  by (simp add: build_query_def update_conversation_history_def Let_def)







lemma load_not_quit: "is_load inp \<Longrightarrow> \<not> is_quit inp"
proof
  assume a: "is_load inp" and b: "is_quit inp"
  from a obtain r where "lower inp = ''/load'' @ r"
    using startswith_append is_load_def by blast
  with b show False by (simp add: is_quit_def startswith_def)
qed

lemma handle_user_input_accept:
  "conversation_history s \<noteq> [] \<Longrightarrow> \<not> is_quit inp \<Longrightarrow> \<not> is_load inp \<Longrightarrow> table_schemas s \<noteq> [] \<Longrightarrow>
   handle_user_input inp s =
     Inr (s\<lparr>conversation_history := conversation_history s @ [HumanMessage inp],
            sql_event := new_SqlEvent inp, next_step := ''build_query''\<rparr>)"
  by (simp add: handle_user_input_def is_quit_def is_load_def update_conversation_history_def)

lemma handle_user_input_event:
  "handle_user_input inp s = Inr s' \<Longrightarrow>
     sql_event s' = sql_event s
   \<or> (\<not> is_quit inp \<and> \<not> is_load inp \<and> table_schemas s \<noteq> [] \<and> sql_event s' = new_SqlEvent inp)"
  by (auto simp: handle_user_input_def is_quit_def is_load_def update_conversation_history_def
      split: if_splits list.splits)

lemma load_data_event: "load_data c f s = Inr s' \<Longrightarrow> sql_event s' = sql_event s"
  by (auto simp: load_data_def update_conversation_history_def Let_def
      split: option.splits sum.splits)

lemma build_query_event:
  "build_query r s = Inr s' \<Longrightarrow>
   user_question (sql_event s') = user_question (sql_event s)
   \<and> retry_count (sql_event s') = retry_count (sql_event s)"
  by (auto simp: build_query_def update_conversation_history_def Let_def
      split: if_splits list.splits)

lemma post_execution_event:
  "post_execution sh r s = Inr s' \<Longrightarrow>
   user_question (sql_event s') = user_question (sql_event s)
   \<and> retry_count (sql_event s') = retry_count (sql_event s)"
  by (auto simp: post_execution_def update_conversation_history_def Let_def
      split: option.splits)

lemma execute_query_event:
  "user_question (sql_event (execute_query N out s)) = user_question (sql_event s)
   \<and> retry_count (sql_event (execute_query N out s)) =
       (if isl out then retry_count (sql_event s) + 1 else retry_count (sql_event s))"
  by (cases out) (simp_all add: execute_query_Inl execute_query_Inr)

lemma handle_user_input_history:
  "handle_user_input inp s = Inr s' \<Longrightarrow>
   conversation_history s' = conversation_history s
   \<or> conversation_history s' = conversation_history s @ [SystemMessage load_first_msg]
   \<or> conversation_history s' = conversation_history s @ [HumanMessage inp]"
  by (auto simp: handle_user_input_def update_conversation_history_def
      split: if_splits list.splits)

lemma load_data_history:
  "load_data c f s = Inr s' \<Longrightarrow>
   \<exists>m. conversation_history s' = conversation_history s @ [SystemMessage m]"
  by (auto simp: load_data_def update_conversation_history_def Let_def
      split: option.splits sum.splits)

lemma build_query_history:
  "build_query r s = Inr s' \<Longrightarrow>
   \<exists>m. conversation_history s' = conversation_history s @ [AIMessage m]"
  by (auto simp: build_query_def update_conversation_history_def Let_def
      split: if_splits list.splits)

lemma execute_query_history:
  "conversation_history (execute_query N out s) =
     conversation_history s @
       (case out of Inl e \<Rightarrow> [AIMessage (if retry_count (sql_event s) + 1 > N then give_up_msg else error_msg e)]
        | Inr rows \<Rightarrow> [])"
  by (cases out) (simp_all add: execute_query_Inl execute_query_Inr)

lemma post_execution_history:
  "post_execution sh r s = Inr s' \<Longrightarrow>
   conversation_history s' = conversation_history s @
     [AIMessage (''SQL results are: '' @ str_result sh (sql_result (sql_event s))), AIMessage r]"
  by (auto simp: post_execution_def update_conversation_history_def Let_def
      split: option.splits)







lemma handle_user_input_next:
  "handle_user_input inp s = Inr s' \<Longrightarrow>
   next_step s' \<in> {''handle_user_input'', ''load_data'', ''build_query'', ''END''}"
  by (auto simp: handle_user_input_def update_conversation_history_def
      split: if_splits list.splits)

lemma load_data_next: "load_data c f s = Inr s' \<Longrightarrow> next_step s' = ''handle_user_input''"
  by (auto simp: load_data_def update_conversation_history_def Let_def
      split: option.splits sum.splits)

lemma build_query_next:
  "build_query r s = Inr s' \<Longrightarrow> next_step s' \<in> {''handle_user_input'', ''execute_query''}"
  by (auto simp: build_query_def update_conversation_history_def Let_def
      split: if_splits list.splits)

lemma execute_query_next:
  "next_step (execute_query N out s) \<in> {''post_execution'', ''handle_user_input'', ''build_query''}"
  by (cases out) (simp_all add: execute_query_Inl execute_query_Inr)

lemma post_execution_next:
  "post_execution sh r s = Inr s' \<Longrightarrow> next_step s' = ''handle_user_input''"
  by (auto simp: post_execution_def update_conversation_history_def Let_def
      split: option.splits)

section \<open>Facts about the graph\<close>


lemma run_graph_Cons:
  assumes "run_graph N sh node s (w # ws) = Inr (tr, node', s')" and "node \<noteq> END"
  obtains s1 node1 tr1 where "run_node N sh node w s = Inr s1"
    and "next_node node s1 = Inr node1"
    and "run_graph N sh node1 s1 ws = Inr (tr1, node', s')"
    and "tr = node # tr1"
  using assms by (auto split: sum.splits)

lemma step_build_query:
  assumes "\<not> startswith (w_llm w) clarification_marker"
  shows "run_graph N sh ''build_query'' s (w # ws) =
     (case run_graph N sh ''execute_query''
        (s\<lparr>conversation_history := conversation_history s @
                [AIMessage (strip (replace (replace (w_llm w) (fence @ ''sql'') []) fence []))],
            sql_event := (sql_event s)\<lparr>sql_text :=
                Some (strip (replace (replace (w_llm w) (fence @ ''sql'') []) fence []))\<rparr>,
            next_step := ''execute_query''\<rparr>) ws of
        Inl e \<Rightarrow> Inl e
      | Inr (trace, last_node, final) \<Rightarrow> Inr (''build_query'' # trace, last_node, final))"
  using assms
  by (simp add: run_node_def next_node_def conditional_edges_def route_to_next_step_def
      build_query_query END_def)

lemma step_execute_query_failed:
  assumes "w_executed w = Inl e"
  shows "run_graph N sh ''execute_query'' s (w # ws) =
     (case run_graph N sh
             (if retry_count (sql_event s) + 1 > N then ''handle_user_input'' else ''build_query'')
             (execute_query N (Inl e) s) ws of
        Inl e \<Rightarrow> Inl e
      | Inr (trace, last_node, final) \<Rightarrow> Inr (''execute_query'' # trace, last_node, final))"
  using assms
  by (simp add: run_node_def next_node_def conditional_edges_def route_to_next_step_def
      execute_query_Inl END_def)

text \<open>
  While every execution fails and every reply of the model is a query, an attempt that may
  still fail \<open>k\<close> more times without exceeding the bound runs the pair of stages
  \<open>k + 1\<close> times and then hands control to the intake stage.
\<close>

lemma retry_cycle:
  assumes "\<forall>w\<in>set ws. isl (w_executed w) \<and> \<not> startswith (w_llm w) clarification_marker"
    and "retry_count (sql_event s) = N - int k"
    and "length ws = 2 * Suc k"
  shows "\<exists>s'. run_graph N sh ''build_query'' s ws =
           Inr (concat (replicate (Suc k) [''build_query'', ''execute_query'']),
                ''handle_user_input'', s')
         \<and> retry_count (sql_event s') = N + 1
         \<and> conversation_history s' \<noteq> []
         \<and> last (conversation_history s') = AIMessage give_up_msg"
  using assms
proof (induction k arbitrary: s ws)
  case 0
  then obtain w1 w2 where ws: "ws = [w1, w2]"
    by (cases ws; cases "tl ws") auto
  with 0 obtain e where e: "w_executed w2 = Inl e"
    by (cases "w_executed w2") auto
  from 0 ws have q: "\<not> startswith (w_llm w1) clarification_marker" by simp
  show ?case
    using 0
    by (simp add: ws step_build_query [OF q] step_execute_query_failed [OF e] execute_query_Inl
        del: run_graph.simps(2))
next
  case (Suc k)
  then obtain w1 w2 ws' where ws: "ws = w1 # w2 # ws'" and len: "length ws' = 2 * Suc k"
    by (cases ws; cases "tl ws") auto
  with Suc obtain e where e: "w_executed w2 = Inl e"
    by (cases "w_executed w2") auto
  from Suc ws have q: "\<not> startswith (w_llm w1) clarification_marker" by simp
  let ?s1 = "s\<lparr>conversation_history := conversation_history s @
                [AIMessage (strip (replace (replace (w_llm w1) (fence @ ''sql'') []) fence []))],
            sql_event := (sql_event s)\<lparr>sql_text :=
                Some (strip (replace (replace (w_llm w1) (fence @ ''sql'') []) fence []))\<rparr>,
            next_step := ''execute_query''\<rparr>"
  let ?s2 = "execute_query N (Inl e) ?s1"
  have rc: "retry_count (sql_event ?s2) = N - int k"
    using Suc.prems(2) by (simp add: execute_query_Inl)
  have all: "\<forall>w\<in>set ws'. isl (w_executed w) \<and> \<not> startswith (w_llm w) clarification_marker"
    using Suc.prems(1) ws by simp
  from Suc.IH [OF all rc len] obtain s' where
    run: "run_graph N sh ''build_query'' ?s2 ws' =
           Inr (concat (replicate (Suc k) [''build_query'', ''execute_query'']),
                ''handle_user_input'', s')"
    and rest: "retry_count (sql_event s') = N + 1" "conversation_history s' \<noteq> []"
      "last (conversation_history s') = AIMessage give_up_msg"
    by blast
  have "\<not> retry_count (sql_event ?s1) + 1 > N"
    using Suc.prems(2) by simp
  then have "run_graph N sh ''build_query'' s ws =
           Inr (concat (replicate (Suc (Suc k)) [''build_query'', ''execute_query'']),
                ''handle_user_input'', s')"
    using run
    by (simp add: ws step_build_query [OF q] step_execute_query_failed [OF e]
        del: run_graph.simps(2))
  with rest show ?case by blast
qed



lemma run_node_history:
  assumes "run_node N sh node w s = Inr s1"
  shows "\<exists>ms. conversation_history s1 = conversation_history s @ ms \<and> appended_ok node w ms"
proof -
  consider "node = ''handle_user_input''" | "node = ''load_data''" | "node = ''build_query''"
    | "node = ''execute_query''" | "node = ''post_execution''"
    using assms by (auto simp: run_node_def split: if_splits)
  then show ?thesis
  proof cases
    case 1
    with assms handle_user_input_history [of "w_typed w" s s1] show ?thesis
      by (auto simp: run_node_def appended_ok_def)
  next
    case 2
    with assms load_data_history [of "w_created w" "w_file_read w" s s1] show ?thesis
      by (auto simp: run_node_def appended_ok_def)
  next
    case 3
    with assms build_query_history [of "w_llm w" s s1] show ?thesis
      by (auto simp: run_node_def appended_ok_def)
  next
    case 4
    with assms execute_query_history [of N "w_executed w" s] show ?thesis
      by (cases "w_executed w") (auto simp: run_node_def appended_ok_def)
  next
    case 5
    with assms post_execution_history [of sh "w_llm w" s s1] show ?thesis
      by (auto simp: run_node_def appended_ok_def)
  qed
qed

lemma run_graph_history:
  "run_graph N sh node s ws = Inr (tr, node', s') \<Longrightarrow>
   \<exists>ms. conversation_history s' = conversation_history s @ ms"
proof (induction ws arbitrary: node s tr)
  case Nil
  then show ?case by simp
next
  case (Cons w ws)
  show ?case
  proof (cases "node = END")
    case True
    with Cons.prems show ?thesis by simp
  next
    case False
    from Cons.prems False obtain s1 node1 tr1 where
      a: "run_node N sh node w s = Inr s1"
      and c: "run_graph N sh node1 s1 ws = Inr (tr1, node', s')"
      by (rule run_graph_Cons)
    from run_node_history [OF a] Cons.IH [OF c] show ?thesis by auto
  qed
qed




subsection \<open>The concrete sessions, step by step\<close>

lemma first_session:
  "run_graph 0 id ''handle_user_input'' welcome_state
     [load_world sales_load, load_world sales_load, failing_world] =
   Inr ([''handle_user_input'', ''load_data'', ''handle_user_input''], ''build_query'',
        asked_state)"
  by code_simp

lemma session_load_typed:
  "handle_user_input ''/load sales.csv sales_meta.txt'' welcome_state = Inr pending_state"
  by code_simp

lemma session_loaded:
  "run_node 0 id ''load_data'' (load_world sales_load) pending_state = Inr loaded_state"
  by code_simp

lemma session_asked:
  "handle_user_input ''total sales last month'' loaded_state = Inr asked_state"
  by code_simp

lemma session_narrated:
  "run_node 0 id ''post_execution'' narrating_world answered_state = Inr narrated_state"
  by code_simp

lemma clarification_example:
  "build_query ''[CLARIFICATION] Which date range?'' asked_state =
     Inr (asked_state\<lparr>conversation_history := conversation_history asked_state @
            [AIMessage ''Your question is ambiguous. Please provide additional details: Which date range?''],
            next_step := ''handle_user_input''\<rparr>)"
  by code_simp

lemma fenced_example:
  "build_query (fence @ ''sql'' @ [CHR 0x0A] @ ''SELECT sum(amount) FROM sales'' @ [CHR 0x0A] @ fence) asked_state =
     Inr (asked_state\<lparr>conversation_history := conversation_history asked_state @
            [AIMessage ''SELECT sum(amount) FROM sales''],
            sql_event := (sql_event asked_state)\<lparr>sql_text := Some ''SELECT sum(amount) FROM sales''\<rparr>,
            next_step := ''execute_query''\<rparr>)"
  by code_simp




section \<open>The retry bound of the execution stage\<close>

text \<open>
  C1. When an execution fails, the retry count goes up by one; if the new count is greater
  than the bound \<open>N\<close> the handler appends the give-up message and names the intake stage,
  otherwise it names the query-building stage; the execution stage names the intake stage
  in no other case. Hence an attempt that starts with count 0, whose executions all fail
  and for which the model always answers with a query, runs the building and the
  execution stage exactly \<open>N + 1\<close> times each, and then control is with the intake stage.
\<close>

theorem retry_bound:
  "0 \<le> N \<Longrightarrow>
   retry_count (sql_event (execute_query N (Inl e) s)) = retry_count (sql_event s) + 1
   \<and> (retry_count (sql_event s) + 1 > N \<longrightarrow>
        conversation_history (execute_query N (Inl e) s) =
          conversation_history s @ [AIMessage give_up_msg]
        \<and> next_step (execute_query N (Inl e) s) = ''handle_user_input'')
   \<and> (\<not> retry_count (sql_event s) + 1 > N \<longrightarrow>
        next_step (execute_query N (Inl e) s) = ''build_query'')
   \<and> (next_step (execute_query N out s) = ''handle_user_input''
        \<longleftrightarrow> isl out \<and> retry_count (sql_event s) + 1 > N)
   \<and> (retry_count (sql_event s) = 0 \<and> length ws = 2 * (nat N + 1)
        \<and> (\<forall>w\<in>set ws. isl (w_executed w) \<and> \<not> startswith (w_llm w) clarification_marker)
       \<longrightarrow> (\<exists>s'. run_graph N sh ''build_query'' s ws =
                   Inr (concat (replicate (nat N + 1) [''build_query'', ''execute_query'']),
                        ''handle_user_input'', s')
                \<and> retry_count (sql_event s') = N + 1
                \<and> last (conversation_history s') = AIMessage give_up_msg))"
proof (intro conjI impI)
  assume N: "0 \<le> N"
  show "next_step (execute_query N out s) = ''handle_user_input''
        \<longleftrightarrow> isl out \<and> retry_count (sql_event s) + 1 > N"
    by (cases out) (simp_all add: execute_query_Inl execute_query_Inr)
  assume a: "retry_count (sql_event s) = 0 \<and> length ws = 2 * (nat N + 1)
        \<and> (\<forall>w\<in>set ws. isl (w_executed w) \<and> \<not> startswith (w_llm w) clarification_marker)"
  with N have "retry_count (sql_event s) = N - int (nat N)" "length ws = 2 * Suc (nat N)"
    by simp_all
  with a retry_cycle [where ws = ws and N = N and s = s and k = "nat N" and sh = sh]
  show "\<exists>s'. run_graph N sh ''build_query'' s ws =
                   Inr (concat (replicate (nat N + 1) [''build_query'', ''execute_query'']),
                        ''handle_user_input'', s')
                \<and> retry_count (sql_event s') = N + 1
                \<and> last (conversation_history s') = AIMessage give_up_msg"
    by auto
qed (simp_all add: execute_query_Inl)

text \<open>With the bound 0: one build, one failed execution, then the give-up message.\<close>

theorem retry_bound_witness:
  "(0::int) \<le> 0
   \<and> (\<exists>s'. run_graph 0 id ''build_query'' asked_state [failing_world, failing_world] =
             Inr ([''build_query'', ''execute_query''], ''handle_user_input'', s')
           \<and> retry_count (sql_event s') = 1
           \<and> last (conversation_history s') = AIMessage give_up_msg)
   \<and> next_step (execute_query 0 (w_executed failing_world) asked_state) = ''handle_user_input''"
  using retry_bound [where N = 0 and e = "''x''" and s = asked_state
      and out = "w_executed failing_world" and ws = "[failing_world, failing_world]" and sh = id]
  by (simp add: asked_state_def failing_world_def new_SqlEvent_def startswith_def
      clarification_marker_def)

section \<open>A fresh attempt for every accepted question\<close>

text \<open>
  C2. When the intake handler accepts a question (an input that is neither a quit marker
  nor a load command, typed while table schemas are loaded), the attempt record of the
  state it returns is a fresh one: its question is the input and its retry count is 0. A
  run of any stage either is such an acceptance or keeps the question of the attempt, and
  then the retry count changes in one case only: the execution stage, on a failure, adds one.
\<close>

theorem fresh_attempt_retry_count:
  "(conversation_history s \<noteq> [] \<and> \<not> is_quit user_input \<and> \<not> is_load user_input
      \<and> table_schemas s \<noteq> []
     \<longrightarrow> (\<exists>s'. handle_user_input user_input s = Inr s'
              \<and> sql_event s' = new_SqlEvent user_input
              \<and> user_question (sql_event s') = Some user_input
              \<and> retry_count (sql_event s') = 0))
   \<and> (run_node N sh node w t = Inr t1
     \<longrightarrow> (node = ''handle_user_input'' \<and> \<not> is_quit (w_typed w) \<and> \<not> is_load (w_typed w)
            \<and> table_schemas t \<noteq> [] \<and> sql_event t1 = new_SqlEvent (w_typed w))
         \<or> (user_question (sql_event t1) = user_question (sql_event t)
            \<and> retry_count (sql_event t1) =
                (if node = ''execute_query'' \<and> isl (w_executed w)
                 then retry_count (sql_event t) + 1 else retry_count (sql_event t))))"
proof (intro conjI impI)
  assume "conversation_history s \<noteq> [] \<and> \<not> is_quit user_input \<and> \<not> is_load user_input
      \<and> table_schemas s \<noteq> []"
  then show "\<exists>s'. handle_user_input user_input s = Inr s'
              \<and> sql_event s' = new_SqlEvent user_input
              \<and> user_question (sql_event s') = Some user_input
              \<and> retry_count (sql_event s') = 0"
    by (simp add: handle_user_input_accept) (simp add: new_SqlEvent_def)
next
  assume a: "run_node N sh node w t = Inr t1"
  consider "node = ''handle_user_input''" | "node = ''load_data''" | "node = ''build_query''"
    | "node = ''execute_query''" | "node = ''post_execution''"
    using a by (auto simp: run_node_def split: if_splits)
  then show "(node = ''handle_user_input'' \<and> \<not> is_quit (w_typed w) \<and> \<not> is_load (w_typed w)
            \<and> table_schemas t \<noteq> [] \<and> sql_event t1 = new_SqlEvent (w_typed w))
         \<or> (user_question (sql_event t1) = user_question (sql_event t)
            \<and> retry_count (sql_event t1) =
                (if node = ''execute_query'' \<and> isl (w_executed w)
                 then retry_count (sql_event t) + 1 else retry_count (sql_event t)))"
  proof cases
    case 1
    with a handle_user_input_event [of "w_typed w" t t1] show ?thesis
      by (auto simp: run_node_def)
  next
    case 2
    with a load_data_event [of "w_created w" "w_file_read w" t t1] show ?thesis
      by (simp add: run_node_def)
  next
    case 3
    with a build_query_event [of "w_llm w" t t1] show ?thesis
      by (simp add: run_node_def)
  next
    case 4
    with a execute_query_event [of N "w_executed w" t] show ?thesis
      by (auto simp: run_node_def)
  next
    case 5
    with a post_execution_event [of sh "w_llm w" t t1] show ?thesis
      by (simp add: run_node_def)
  qed
qed

text \<open>A question accepted after the load; one failed execution of it.\<close>

theorem fresh_attempt_retry_count_witness:
  "(\<exists>s'. handle_user_input ''total sales last month'' loaded_state = Inr s'
          \<and> user_question (sql_event s') = Some ''total sales last month''
          \<and> retry_count (sql_event s') = 0)
   \<and> user_question (sql_event (execute_query 1 (w_executed failing_world) asked_state)) =
       Some ''total sales last month''
   \<and> retry_count (sql_event (execute_query 1 (w_executed failing_world) asked_state)) = 1"
proof -
  have h: "conversation_history loaded_state \<noteq> [] \<and> \<not> is_quit ''total sales last month''
      \<and> \<not> is_load ''total sales last month'' \<and> table_schemas loaded_state \<noteq> []"
    by code_simp
  have r: "run_node 1 id ''execute_query'' failing_world asked_state =
             Inr (execute_query 1 (w_executed failing_world) asked_state)"
    by (simp add: run_node_def)
  have e: "user_question (sql_event asked_state) = Some ''total sales last month''
     \<and> retry_count (sql_event asked_state) = 0 \<and> isl (w_executed failing_world)"
    by code_simp
  from h r e fresh_attempt_retry_count [where s = loaded_state
      and user_input = "''total sales last month''" and N = 1 and sh = id
      and node = "''execute_query''" and w = failing_world and t = asked_state
      and ?t1.0 = "execute_query 1 (w_executed failing_world) asked_state"]
  show ?thesis by auto
qed

section \<open>Clarification or query\<close>




section \<open>Table schemas accumulate\<close>



section \<open>A malformed load command\<close>

text \<open>
  C5, as the handler has it. For a load command whose number of pieces is not three, the
  intake handler names the intake stage again and changes nothing else: the usage hint
  goes to the log only, the history receives no message, no attempt record is created and
  the input is not taken as a question.
\<close>

theorem malformed_load_retries_intake:
  "conversation_history s \<noteq> [] \<and> is_load user_input \<and> length (split_ws user_input) \<noteq> 3
   \<longrightarrow> handle_user_input user_input s = Inr (s\<lparr>next_step := ''handle_user_input''\<rparr>)"
proof
  assume a: "conversation_history s \<noteq> [] \<and> is_load user_input \<and> length (split_ws user_input) \<noteq> 3"
  then have "\<not> startswith (lower user_input) ''/q''"
    using load_not_quit by (simp add: is_quit_def)
  with a show "handle_user_input user_input s = Inr (s\<lparr>next_step := ''handle_user_input''\<rparr>)"
    by (auto simp: handle_user_input_def is_load_def split: list.splits)
qed

theorem malformed_load_witness:
  "handle_user_input ''/load sales.csv'' asked_state =
     Inr (asked_state\<lparr>next_step := ''handle_user_input''\<rparr>)"
proof -
  have "conversation_history asked_state \<noteq> [] \<and> is_load ''/load sales.csv''
     \<and> length (split_ws ''/load sales.csv'') \<noteq> 3"
    by code_simp
  with malformed_load_retries_intake [where s = asked_state and user_input = "''/load sales.csv''"]
  show ?thesis by blast
qed

text \<open>
  The claim that a system message is appended fails: after the command
  \<^verbatim>\<open>/load sales.csv\<close> the state is the one before it, history included.
\<close>

theorem malformed_load_counterexample:
  "is_load ''/load sales.csv'' \<and> length (split_ws ''/load sales.csv'') = 2
   \<and> handle_user_input ''/load sales.csv'' welcome_state = Inr welcome_state
   \<and> conversation_history welcome_state = [SystemMessage ''Welcome to TableAgentGPT!'']"
  by code_simp

section \<open>Questions wait for a schema\<close>



section \<open>The text of the give-up message\<close>

text \<open>
  C7. With the bound 3 and three failures behind the attempt, a fourth failure exhausts
  the budget. The message appended then holds the name of the constant between braces,
  as written in the source, and no digit 3.
\<close>

theorem give_up_message_text:
  "last (conversation_history (execute_query 3 (Inl ''Catalog Error'') exhausted_state)) =
     AIMessage ''Unfortunately, I was unable to execute your requests after {MAX_RETRY_SQL_GENERATION} attempts.''
   \<and> length (conversation_history (execute_query 3 (Inl ''Catalog Error'') exhausted_state)) =
       length (conversation_history exhausted_state) + 1
   \<and> next_step (execute_query 3 (Inl ''Catalog Error'') exhausted_state) = ''handle_user_input''
   \<and> CHR ''3'' \<notin> set (content (last (conversation_history
         (execute_query 3 (Inl ''Catalog Error'') exhausted_state))))"
  by code_simp

section \<open>The history only grows\<close>

text \<open>
  C8, as the handlers have it. A run of a stage leaves the earlier history as a prefix of
  the new one, and so does every run of the graph. What a stage appends: the intake stage
  nothing, or one system message, or the question as one user message; the loading stage
  one system message; the query-building stage one assistant message; the execution stage
  one assistant message on a failure and nothing on a success; the narration stage two
  assistant messages, the printed rows and the summary.
\<close>

theorem history_append_only:
  "(run_node N sh node w s = Inr s1
     \<longrightarrow> (\<exists>ms. conversation_history s1 = conversation_history s @ ms \<and> appended_ok node w ms))
   \<and> (run_graph N sh start t ws = Inr (tr, node', t')
     \<longrightarrow> (\<exists>ms. conversation_history t' = conversation_history t @ ms))"
  using run_node_history [of N sh node w s s1] run_graph_history [of N sh start t ws tr node' t']
  by blast

theorem history_append_only_witness:
  "(\<exists>ms. conversation_history narrated_state = conversation_history answered_state @ ms
         \<and> appended_ok ''post_execution'' narrating_world ms)
   \<and> (\<exists>ms. conversation_history asked_state = conversation_history welcome_state @ ms)"
  using history_append_only [where N = 0 and sh = id and node = "''post_execution''"
      and w = narrating_world and s = answered_state and ?s1.0 = narrated_state
      and t = welcome_state and start = "''handle_user_input''"
      and ws = "[load_world sales_load, load_world sales_load, failing_world]"
      and tr = "[''handle_user_input'', ''load_data'', ''handle_user_input'']"
      and node' = "''build_query''" and t' = asked_state]
    session_narrated first_session
  by (simp del: run_graph.simps)

text \<open>
  The claim that a stage appends exactly one message fails at the narration stage, which
  appends two.
\<close>

theorem narration_counterexample:
  "map_sum id conversation_history (post_execution id ''The total is 42.'' answered_state) =
     Inr (conversation_history answered_state @
            [AIMessage ''SQL results are: [(42,)]'', AIMessage ''The total is 42.''])"
  by code_simp

section \<open>The next stage is always a known one\<close>

text \<open>
  C9. After a run of any stage, \<open>next_step\<close> is one of the five stage names or \<open>END\<close>,
  and so is the value the router returns. Moreover the graph finds the node that follows:
  where the stage has a path map, the router's value is one of its keys.
\<close>

theorem next_step_closed:
  "run_node N sh node w s = Inr s1
   \<longrightarrow> next_step s1 \<in> stage_names \<and> route_to_next_step s1 \<in> stage_names
       \<and> (\<exists>node1. next_node node s1 = Inr node1 \<and> node1 \<in> graph_nodes)"
proof
  assume a: "run_node N sh node w s = Inr s1"
  consider "node = ''handle_user_input''" | "node = ''load_data''" | "node = ''build_query''"
    | "node = ''execute_query''" | "node = ''post_execution''"
    using a by (auto simp: run_node_def split: if_splits)
  then show "next_step s1 \<in> stage_names \<and> route_to_next_step s1 \<in> stage_names
       \<and> (\<exists>node1. next_node node s1 = Inr node1 \<and> node1 \<in> graph_nodes)"
  proof cases
    case 1
    with a handle_user_input_next [of "w_typed w" s s1] show ?thesis
      by (auto simp: run_node_def stage_names_def route_to_next_step_def next_node_def
          conditional_edges_def graph_nodes_def)
  next
    case 2
    with a load_data_next [of "w_created w" "w_file_read w" s s1] show ?thesis
      by (simp add: run_node_def stage_names_def route_to_next_step_def next_node_def
          conditional_edges_def plain_edge_def graph_nodes_def)
  next
    case 3
    with a build_query_next [of "w_llm w" s s1] show ?thesis
      by (auto simp: run_node_def stage_names_def route_to_next_step_def next_node_def
          conditional_edges_def graph_nodes_def)
  next
    case 4
    with a execute_query_next [of N "w_executed w" s] show ?thesis
      by (auto simp: run_node_def stage_names_def route_to_next_step_def next_node_def
          conditional_edges_def graph_nodes_def)
  next
    case 5
    with a post_execution_next [of sh "w_llm w" s s1] show ?thesis
      by (simp add: run_node_def stage_names_def route_to_next_step_def next_node_def
          conditional_edges_def plain_edge_def graph_nodes_def)
  qed
qed

theorem next_step_closed_witness:
  "next_step loaded_state \<in> stage_names \<and> route_to_next_step loaded_state \<in> stage_names
   \<and> (\<exists>node1. next_node ''load_data'' loaded_state = Inr node1 \<and> node1 \<in> graph_nodes)"
  using next_step_closed [where N = 0 and sh = id and node = "''load_data''"
      and w = "load_world sales_load" and s = pending_state and ?s1.0 = loaded_state]
    session_loaded
  by simp

section \<open>Result rows and error text exclude each other\<close>

text \<open>
  C10. After a failed execution the result rows of the attempt are \<open>None\<close> and its error is
  the text of the exception; after a successful one the rows are those returned and the
  error is \<open>None\<close>. So the execution handler never returns with both set.
\<close>

theorem execute_query_result_xor_error:
  "(case executed of
      Inl e \<Rightarrow> sql_result (sql_event (execute_query N executed s)) = None
              \<and> error (sql_event (execute_query N executed s)) = Some e
    | Inr rows \<Rightarrow> sql_result (sql_event (execute_query N executed s)) = Some rows
              \<and> error (sql_event (execute_query N executed s)) = None)
   \<and> \<not> (sql_result (sql_event (execute_query N executed s)) \<noteq> None
         \<and> error (sql_event (execute_query N executed s)) \<noteq> None)"
  by (cases executed) (simp_all add: execute_query_Inl execute_query_Inr)

text \<open>The rows of an earlier success do not survive a failure.\<close>

theorem execute_query_result_xor_error_witness:
  "sql_result (sql_event answered_state) = Some ''[(42,)]''
   \<and> sql_result (sql_event (execute_query 2 (Inl ''IO Error'') answered_state)) = None
   \<and> error (sql_event (execute_query 2 (Inl ''IO Error'') answered_state)) = Some ''IO Error''"
  using execute_query_result_xor_error [where executed = "Inl ''IO Error''" and N = 2
      and s = answered_state]
  by (simp add: answered_state_def)

end
